theory Spec2Isabelle
  imports Main "HOL-Library.FSet"
begin

section \<open>Python strings\<close>

text \<open>
  A Python \<open>str\<close> is modelled as a \<open>string\<close> whose characters are the code points
  U+0000 to U+00FF, one \<open>char\<close> per code point, so \<open>length\<close> is Python's \<open>len\<close>.
  \<open>lower\<close> is \<open>str.lower()\<close> on that range: the letters A-Z and the Latin-1 capitals
  U+00C0 to U+00DE (without the multiplication sign U+00D7) move up by 32, every other
  code point is kept.
\<close>

definition lower_char :: "char \<Rightarrow> char" where
  "lower_char c =
     (let n = (of_char c :: nat)
      in if (65 \<le> n \<and> n \<le> 90) \<or> (192 \<le> n \<and> n \<le> 222 \<and> n \<noteq> 215)
         then char_of (n + 32) else c)"

definition lower :: "string \<Rightarrow> string" where
  "lower s = map lower_char s"

text \<open>\<open>str.isspace()\<close> of one code point below 256, and \<open>str.strip()\<close>.\<close>

definition is_space :: "char \<Rightarrow> bool" where
  "is_space c =
     (let n = (of_char c :: nat)
      in (9 \<le> n \<and> n \<le> 13) \<or> (28 \<le> n \<and> n \<le> 32) \<or> n = 133 \<or> n = 160)"

definition strip :: "string \<Rightarrow> string" where
  "strip s = rev (dropWhile is_space (rev (dropWhile is_space s)))"

text \<open>\<open>s.startswith(p)\<close> and the substring test \<open>sub in s\<close>.\<close>

fun starts_with :: "string \<Rightarrow> string \<Rightarrow> bool" where
  "starts_with [] s = True"
| "starts_with (p # ps) [] = False"
| "starts_with (p # ps) (c # cs) = (p = c \<and> starts_with ps cs)"

fun str_in :: "string \<Rightarrow> string \<Rightarrow> bool" where
  "str_in sub [] = (sub = [])"
| "str_in sub (c # cs) = (starts_with sub (c # cs) \<or> str_in sub cs)"

text \<open>\<open>any(w in s for w in ws)\<close>.\<close>

definition any_in :: "string list \<Rightarrow> string \<Rightarrow> bool" where
  "any_in ws s = list_ex (\<lambda>w. str_in w s) ws"

text \<open>\<open>s[-n:]\<close> for a positive \<open>n\<close>: the last \<open>n\<close> characters, all of \<open>s\<close> when it is shorter.\<close>

definition last_chars :: "nat \<Rightarrow> string \<Rightarrow> string" where
  "last_chars n s = drop (length s - n) s"

text \<open>\<open>str(i)\<close> of an integer, as an f-string formats it.\<close>

fun nat_digits :: "nat \<Rightarrow> string" where
  "nat_digits n =
     (if n < 10 then [''0123456789'' ! n]
      else nat_digits (n div 10) @ [''0123456789'' ! (n mod 10)])"

declare nat_digits.simps [simp del]

definition str_int :: "int \<Rightarrow> string" where
  "str_int i = (if i < 0 then CHR ''-'' # nat_digits (nat (- i)) else nat_digits (nat i))"

section \<open>Exceptions\<close>

text \<open>
  The exceptions the handlers can raise, each with the text \<open>str(e)\<close> needs. The text of
  a \<open>ValueError\<close> is abbreviated: no claim reads it.
\<close>

datatype error = KeyError string | ValueError string

fun exc_str :: "error \<Rightarrow> string" where
  "exc_str (KeyError k) = [CHR 0x27] @ k @ [CHR 0x27]"
| "exc_str (ValueError m) = m"

text \<open>
  \<open>int(s)\<close> on a string of decimal digits. Python's \<open>int\<close> also reads a sign, blanks
  around the number and underscores between digits; the one call of the program passes
  the digits of \<open>'d20'\<close>.
\<close>

definition is_digit :: "char \<Rightarrow> bool" where
  "is_digit c = (48 \<le> (of_char c :: nat) \<and> (of_char c :: nat) \<le> 57)"

definition py_int :: "string \<Rightarrow> error + int" where
  "py_int s =
     (if s \<noteq> [] \<and> list_all is_digit s
      then Inr (int (foldl (\<lambda>a c. 10 * a + (of_char c - 48)) 0 s))
      else Inl (ValueError (''invalid literal for int() with base 10: '' @ s)))"

section \<open>Data model\<close>

text \<open>
  \<open>GAME_ROOMS\<close> maps a room id to its story and its set of player names, \<open>USERS\<close> maps a
  connection id (\<open>request.sid\<close>) to the user's name, character sheet and room. The locks
  are not modelled: every handler runs as one atomic step.
\<close>

record room =
  story_state :: string
  players :: "string fset"

record character =
  char_class :: string
  hp :: int
  inventory :: "string list"

record user =
  username :: string
  character :: character
  room :: string

record state =
  GAME_ROOMS :: "string \<rightharpoonup> room"
  USERS :: "string \<rightharpoonup> user"

definition DEFAULT_ROOM :: string where
  "DEFAULT_ROOM = ''main_adventure''"

definition initial_state :: state where
  "initial_state = \<lparr>GAME_ROOMS = Map.empty, USERS = Map.empty\<rparr>"

text \<open>
  What a handler sends: \<open>emit(event, payload, ...)\<close> with its addressing, and the
  transport's \<open>join_room\<close> and \<open>leave_room\<close>. \<open>To_sender\<close> is an \<open>emit\<close> with neither
  \<open>room\<close> nor \<open>broadcast\<close>, \<open>To_room r incl\<close> is \<open>room=r, include_self=incl\<close>, \<open>To_all\<close> is
  \<open>broadcast=True\<close>.
\<close>

datatype target = To_sender | To_room string bool | To_all

datatype payload =
    Character_update "string list"
  | Message string string
  | Room_update "string \<rightharpoonup> nat"

datatype effect = Emit payload target | Join_room string | Leave_room string

text \<open>
  The event payloads. A key the handler reads with \<open>data[key]\<close> may be missing
  (\<open>None\<close>), which raises \<open>KeyError\<close>; the values have the types of the event contract.
\<close>

record create_data =
  d_username :: "string option"
  d_charClass :: "string option"
  d_maxHP :: "int option"

record join_data =
  d_room :: "string option"

record message_data =
  d_message :: "string option"

text \<open>
  What the outside world gives one \<open>message\<close> event. \<open>post_result\<close> is the outcome of
  \<open>requests.post\<close> and of reading the reply: \<open>Raised m\<close> when the call raises an
  exception \<open>e\<close> with \<open>str(e) = m\<close> (a timeout, a refused connection),
  \<open>Responded status body\<close> when it returns, where \<open>body\<close> is \<open>Inr content\<close> when
  \<open>response.json()['choices'][0]['message']['content']\<close> is the string \<open>content\<close> and
  \<open>Inl m\<close> when evaluating it (or its \<open>strip\<close>) raises an exception with text \<open>m\<close>. The
  request built from the prompt only influences this outcome and is not modelled.
  \<open>now_hm\<close> is \<open>datetime.now().strftime('%H:%M')\<close>. \<open>randint_src i\<close> is the entropy of the
  \<open>i\<close>-th \<open>random.randint\<close>, \<open>choice_src\<close> that of \<open>random.choice\<close>.
\<close>

datatype http_outcome = Raised string | Responded int "string + string"

record env =
  post_result :: http_outcome
  now_hm :: string
  randint_src :: "nat \<Rightarrow> nat"
  choice_src :: nat

section \<open>Dice\<close>

text \<open>
  \<open>random.randint(1, n)\<close> raises \<open>ValueError\<close> on an empty range. With \<open>num \<le> 0\<close> the
  generator of \<open>generate_dice_roll\<close> never runs, so \<open>die_type\<close> is not parsed.
\<close>

definition randint1 :: "nat \<Rightarrow> int \<Rightarrow> error + int" where
  "randint1 e n =
     (if n < 1 then Inl (ValueError ''empty range for randrange()'')
      else Inr (1 + int e mod n))"

definition generate_dice_roll :: "(nat \<Rightarrow> nat) \<Rightarrow> string \<Rightarrow> int \<Rightarrow> int \<Rightarrow> error + int" where
  "generate_dice_roll src die_type num modifier =
     (if num \<le> 0 then Inr modifier
      else case py_int (drop 1 die_type) of
        Inl e \<Rightarrow> Inl e
      | Inr sides \<Rightarrow>
          (case randint1 (src 0) sides of
             Inl e \<Rightarrow> Inl e
           | Inr _ \<Rightarrow>
               Inr (sum_list (map (\<lambda>i. 1 + int (src i) mod sides) [0..<nat num]) + modifier)))"

section \<open>The narrator call\<close>

definition new_adventure :: room where
  "new_adventure =
     \<lparr>story_state = ''A new adventure begins in a vast world of magic and mystery.'',
      players = {||}\<rparr>"

definition dice_words :: "string list" where
  "dice_words = [''roll'', ''attack'', ''check'']"

text \<open>
  \<open>call_ai_as_dm\<close> returns the text and the new state. The room is created when it is
  missing (lines 45-46); \<open>room_data\<close> is the room the call works on, and for a
  registered room \<open>s1\<close> is \<open>s\<close> (the update writes back the room that was read). Every
  exception raised inside the \<open>try\<close> block becomes the text \<open>DM Exception: ...\<close>.
\<close>

definition call_ai_as_dm :: "env \<Rightarrow> string \<Rightarrow> state \<Rightarrow> string \<times> state" where
  "call_ai_as_dm ev room_id s =
     (let room_data = (case GAME_ROOMS s room_id of None \<Rightarrow> new_adventure | Some r \<Rightarrow> r);
          s1 = s\<lparr>GAME_ROOMS := (GAME_ROOMS s)(room_id \<mapsto> room_data)\<rparr>
      in case post_result ev of
        Raised m \<Rightarrow> (''DM Exception: '' @ m, s1)
      | Responded status body \<Rightarrow>
          if status = 200 then
            (case body of
               Inl m \<Rightarrow> (''DM Exception: '' @ m, s1)
             | Inr content \<Rightarrow>
                 (let ai_response = strip content;
                      annotated =
                        (if any_in dice_words (lower ai_response)
                         then (case generate_dice_roll (randint_src ev) ''d20'' 1 0 of
                                 Inl e \<Rightarrow> Inl e
                               | Inr roll \<Rightarrow>
                                   Inr (ai_response @ '' (DM rolls: '' @ str_int roll @ '' on d20)''))
                         else Inr ai_response)
                  in case annotated of
                    Inl e \<Rightarrow> (''DM Exception: '' @ exc_str e, s1)
                  | Inr ai_response' \<Rightarrow>
                      (ai_response',
                       s1\<lparr>GAME_ROOMS := (GAME_ROOMS s1)(room_id \<mapsto>
                            room_data\<lparr>story_state :=
                              story_state room_data @ [CHR 0x0A] @ now_hm ev @ '': '' @ ai_response'\<rparr>)\<rparr>)))
          else (''DM Error: '' @ str_int status @ '' - Check API key/quotas.'', s1))"

section \<open>The handlers\<close>

text \<open>The room list of \<open>get_rooms\<close> and of the \<open>room_update\<close> sent on a join.\<close>

definition room_counts :: "(string \<rightharpoonup> room) \<Rightarrow> (string \<rightharpoonup> nat)" where
  "room_counts rooms = (\<lambda>k. case rooms k of None \<Rightarrow> None | Some v \<Rightarrow> Some (fcard (players v)))"

definition get_rooms :: "state \<Rightarrow> (string \<rightharpoonup> nat)" where
  "get_rooms s = room_counts (GAME_ROOMS s)"

text \<open>The room list of the \<open>room_update\<close> sent on a leave: \<open>if v.get('players')\<close>.\<close>

definition room_counts_nonempty :: "(string \<rightharpoonup> room) \<Rightarrow> (string \<rightharpoonup> nat)" where
  "room_counts_nonempty rooms =
     (\<lambda>k. case rooms k of
             None \<Rightarrow> None
           | Some v \<Rightarrow> if players v \<noteq> {||} then Some (fcard (players v)) else None)"

definition on_create_character :: "string \<Rightarrow> create_data \<Rightarrow> state \<Rightarrow> error + state \<times> effect list" where
  "on_create_character session_id data s =
     (case d_username data of
        None \<Rightarrow> Inl (KeyError ''username'')
      | Some name \<Rightarrow>
     (case d_charClass data of
        None \<Rightarrow> Inl (KeyError ''charClass'')
      | Some cls \<Rightarrow>
     (case d_maxHP data of
        None \<Rightarrow> Inl (KeyError ''maxHP'')
      | Some max_hp \<Rightarrow>
          Inr (s\<lparr>USERS := (USERS s)(session_id \<mapsto>
                 \<lparr>username = name,
                  character = \<lparr>char_class = cls, hp = max_hp, inventory = []\<rparr>,
                  room = DEFAULT_ROOM\<rparr>)\<rparr>,
               [Emit (Character_update []) To_sender]))))"

definition new_party :: room where
  "new_party = \<lparr>story_state = ''A new party forms. What adventures await?'', players = {||}\<rparr>"

definition join_room_id :: "join_data \<Rightarrow> string" where
  "join_room_id data =
     (case d_room data of
        None \<Rightarrow> DEFAULT_ROOM
      | Some r \<Rightarrow> if r \<noteq> [] then r else DEFAULT_ROOM)"

definition on_join :: "string \<Rightarrow> join_data \<Rightarrow> state \<Rightarrow> state \<times> effect list" where
  "on_join session_id data s =
     (case USERS s session_id of
        None \<Rightarrow> (s, [Emit (Message ''System'' ''Create a character first!'') To_sender])
      | Some u \<Rightarrow>
          (let name = username u;
               room_id = join_room_id data;
               users' = (USERS s)(session_id \<mapsto> u\<lparr>room := room_id\<rparr>);
               r0 = (case GAME_ROOMS s room_id of None \<Rightarrow> new_party | Some r \<Rightarrow> r);
               r1 = r0\<lparr>players := finsert name (players r0)\<rparr>;
               rooms' = (GAME_ROOMS s)(room_id \<mapsto> r1);
               current_state = last_chars 500 (story_state r1)
           in (s\<lparr>GAME_ROOMS := rooms', USERS := users'\<rparr>,
               [Join_room room_id,
                Emit (Message ''System'' (name @ '' joins '' @ room_id @ ''! The tale unfolds...''))
                  (To_room room_id True),
                Emit (Room_update (room_counts rooms')) To_all,
                Emit (Message ''DM (AI)'' (''Current tale: '' @ current_state @ ''...''))
                  (To_room session_id True)])))"

definition on_leave :: "string \<Rightarrow> state \<Rightarrow> state \<times> effect list" where
  "on_leave session_id s =
     (case USERS s session_id of
        None \<Rightarrow> (s, [])
      | Some u \<Rightarrow>
          (let name = username u;
               room_id = room u;
               rooms' =
                 (case GAME_ROOMS s room_id of
                    None \<Rightarrow> GAME_ROOMS s
                  | Some r \<Rightarrow>
                      (let ps = players r |-| {|name|}
                       in if ps = {||} then (GAME_ROOMS s)(room_id := None)
                          else (GAME_ROOMS s)(room_id \<mapsto> r\<lparr>players := ps\<rparr>)))
           in (s\<lparr>GAME_ROOMS := rooms'\<rparr>,
               [Leave_room room_id,
                Emit (Message ''System'' (name @ '' departs the realm.'')) (To_room room_id True),
                Emit (Room_update (room_counts_nonempty rooms')) To_all])))"

text \<open>The condition of line 164 that sends a message to the narrator.\<close>

definition action_prefixes :: "string list" where
  "action_prefixes = [''i '', ''we '', ''group: '', ''the party '']"

definition action_words :: "string list" where
  "action_words = [''attack'', ''cast'', ''investigate'', ''roll'', ''?'']"

definition dm_trigger :: "string \<Rightarrow> bool" where
  "dm_trigger message =
     (any_in action_prefixes (lower message) \<or> any_in action_words (lower message))"

definition loot_words :: "string list" where
  "loot_words = [''find'', ''loot'', ''treasure'']"

definition loot_table :: "string list" where
  "loot_table = [''Potion of Healing'', ''Rusty Sword'', ''Gold Coin'', ''Magic Scroll'']"

text \<open>\<open>random.choice(seq)\<close> of a non-empty sequence, from the entropy \<open>e\<close>.\<close>

definition random_choice :: "nat \<Rightarrow> 'a list \<Rightarrow> 'a" where
  "random_choice e xs = xs ! (e mod length xs)"

text \<open>
  \<open>handle_message\<close>. A missing \<open>message\<close> key raises before anything is sent or changed.
  The session read after the narrator call is the one read at the start: the call
  does not touch \<open>USERS\<close>.
\<close>

definition handle_message ::
    "string \<Rightarrow> message_data \<Rightarrow> env \<Rightarrow> state \<Rightarrow> error + state \<times> effect list" where
  "handle_message session_id data ev s =
     (case USERS s session_id of
        None \<Rightarrow> Inr (s, [])
      | Some u \<Rightarrow>
     (case d_message data of
        None \<Rightarrow> Inl (KeyError ''message'')
      | Some message \<Rightarrow>
          (let name = username u;
               room_id = room u;
               echo = Emit (Message name message) (To_room room_id False)
           in if dm_trigger message then
                (case call_ai_as_dm ev room_id s of
                   (ai_response, s1) \<Rightarrow>
                     if any_in loot_words (lower ai_response) then
                       (let new_item = random_choice (choice_src ev) loot_table;
                            ch = character u;
                            inv' = inventory ch @ [new_item];
                            s2 = s1\<lparr>USERS := (USERS s1)(session_id \<mapsto>
                                   u\<lparr>character := ch\<lparr>inventory := inv'\<rparr>\<rparr>)\<rparr>
                        in Inr (s2,
                             [echo,
                              Emit (Character_update inv') (To_room session_id True),
                              Emit (Message ''DM (AI)'' ai_response) (To_room room_id True)]))
                     else
                       Inr (s1, [echo, Emit (Message ''DM (AI)'' ai_response) (To_room room_id True)]))
              else Inr (s, [echo]))))"

section \<open>Runs of the server\<close>

datatype event =
    Create_character string create_data
  | Join string join_data
  | Leave string
  | Send_message string message_data env

text \<open>One event; a handler that raises leaves the state as it was.\<close>

fun step :: "state \<Rightarrow> event \<Rightarrow> state" where
  "step s (Create_character sid d) =
     (case on_create_character sid d s of Inl e \<Rightarrow> s | Inr (s', out) \<Rightarrow> s')"
| "step s (Join sid d) = fst (on_join sid d s)"
| "step s (Leave sid) = fst (on_leave sid s)"
| "step s (Send_message sid d ev) =
     (case handle_message sid d ev s of Inl e \<Rightarrow> s | Inr (s', out) \<Rightarrow> s')"

definition run :: "event list \<Rightarrow> state" where
  "run evs = foldl step initial_state evs"

section \<open>Predicates and inputs of the properties\<close>

text \<open>
  The room id a narrator call registers: the event is a message that reaches the
  narrator while the sender's room id is not registered, the case of lines 45-46 of
  \<open>call_ai_as_dm\<close>. \<open>None\<close> for every other event.
\<close>

fun dm_unknown_room :: "state \<Rightarrow> event \<Rightarrow> string option" where
  "dm_unknown_room s (Send_message sid d ev) =
     (case USERS s sid of
        None \<Rightarrow> None
      | Some u \<Rightarrow>
          (case d_message d of
             None \<Rightarrow> None
           | Some m \<Rightarrow>
               if dm_trigger m \<and> GAME_ROOMS s (room u) = None then Some (room u) else None))"
| "dm_unknown_room s e = None"

text \<open>Concrete payloads and outcomes of the outside world, for the examples.\<close>

definition alice :: create_data where
  "alice = \<lparr>d_username = Some ''alice'', d_charClass = Some ''Fighter'', d_maxHP = Some 10\<rparr>"

definition bob :: create_data where
  "bob = \<lparr>d_username = Some ''bob'', d_charClass = Some ''Wizard'', d_maxHP = Some 6\<rparr>"

definition timeout_env :: env where
  "timeout_env =
     \<lparr>post_result = Raised ''timed out'', now_hm = ''12:00'',
      randint_src = (\<lambda>i. 6), choice_src = 2\<rparr>"

definition tavern_state :: state where
  "tavern_state = run [Create_character ''c1'' alice, Join ''c1'' \<lparr>d_room = Some ''tavern''\<rparr>]"

definition find_env :: env where
  "find_env =
     \<lparr>post_result = Responded 200 (Inr '' You find a sword. ''), now_hm = ''12:00'',
      randint_src = (\<lambda>i. 6), choice_src = 2\<rparr>"

definition attack_env :: env where
  "attack_env =
     \<lparr>post_result = Responded 200 (Inr '' The goblin attacks! ''), now_hm = ''12:05'',
      randint_src = (\<lambda>i. 46), choice_src = 0\<rparr>"

text \<open>
  The trigger classification as the specification words it, to compare with
  \<open>dm_trigger\<close>: the lowercased message starts with an action prefix, or contains an
  action keyword, or the message contains a question mark.
\<close>

definition classify_spec :: "string \<Rightarrow> bool" where
  "classify_spec message =
     (list_ex (\<lambda>p. starts_with p (lower message)) [''i '', ''we '', ''group: '', ''the party '']
      \<or> list_ex (\<lambda>w. str_in w (lower message)) [''attack'', ''cast'', ''investigate'', ''roll'']
      \<or> CHR ''?'' \<in> set message)"

text \<open>
  A narrator call that fails: \<open>requests.post\<close> raises, the status is not 200, or the
  body of a 200 reply cannot be read.
\<close>

fun call_fails :: "http_outcome \<Rightarrow> bool" where
  "call_fails (Raised m) = True"
| "call_fails (Responded status body) = (status \<noteq> 200 \<or> isl body)"

text \<open>The \<open>character_update\<close> events among the effects, with their addressing.\<close>

fun character_updates :: "effect list \<Rightarrow> (string list \<times> target) list" where
  "character_updates [] = []"
| "character_updates (Emit (Character_update items) t # out) = (items, t) # character_updates out"
| "character_updates (e # out) = character_updates out"

section \<open>Evaluation and helper lemmas\<close>

lemma char_eq_char_of_iff: "c = char_of (n::nat) \<longleftrightarrow> take_bit 8 n = (of_char c :: nat)"
  using char_of_eq_iff [of n c] by auto

lemmas string_defs = lower_def lower_char_def strip_def is_space_def any_in_def last_chars_def
  str_int_def nat_digits.simps char_of_eq_iff char_eq_char_of_iff

lemmas model_defs = run_def initial_state_def on_create_character_def on_join_def on_leave_def
  handle_message_def call_ai_as_dm_def get_rooms_def room_counts_def room_counts_nonempty_def
  DEFAULT_ROOM_def new_adventure_def new_party_def join_room_id_def dm_trigger_def
  action_prefixes_def action_words_def loot_words_def loot_table_def dice_words_def
  random_choice_def generate_dice_roll_def py_int_def is_digit_def randint1_def Let_def

lemma starts_with_iff: "starts_with p s \<longleftrightarrow> (\<exists>ss. s = p @ ss)"
  by (induction p s rule: starts_with.induct) auto

lemma str_in_iff: "str_in sub s \<longleftrightarrow> (\<exists>ps ss. s = ps @ sub @ ss)"
proof (induction s)
  case Nil
  then show ?case by auto
next
  case (Cons c cs)
  show ?case
  proof
    assume "str_in sub (c # cs)"
    then consider "starts_with sub (c # cs)" | "str_in sub cs" by auto
    then show "\<exists>ps ss. c # cs = ps @ sub @ ss"
    proof cases
      case 1
      then obtain ss where "c # cs = sub @ ss" using starts_with_iff by blast
      then have "c # cs = [] @ sub @ ss" by simp
      then show ?thesis by blast
    next
      case 2
      then obtain ps ss where "cs = ps @ sub @ ss" using Cons.IH by blast
      then have "c # cs = (c # ps) @ sub @ ss" by simp
      then show ?thesis by blast
    qed
  next
    assume "\<exists>ps ss. c # cs = ps @ sub @ ss"
    then obtain ps ss where e: "c # cs = ps @ sub @ ss" by blast
    show "str_in sub (c # cs)"
    proof (cases ps)
      case Nil
      then have "starts_with sub (c # cs)" using e starts_with_iff by auto
      then show ?thesis by simp
    next
      case (Cons a as)
      then have "cs = as @ sub @ ss" using e by simp
      then have "str_in sub cs" using Cons.IH by blast
      then show ?thesis by simp
    qed
  qed
qed

text \<open>The default roll: one d20, no modifier, never an exception.\<close>

lemma d20_roll: "generate_dice_roll src ''d20'' 1 0 = Inr (1 + int (src 0) mod 20)"
  by (simp add: generate_dice_roll_def py_int_def is_digit_def randint1_def)

text \<open>What a narrator call leaves alone.\<close>

lemma call_ai_users: "USERS (snd (call_ai_as_dm ev rid s)) = USERS s"
  by (simp add: call_ai_as_dm_def Let_def d20_roll split: http_outcome.splits sum.splits)

lemma call_ai_other_rooms:
  "r \<noteq> rid \<Longrightarrow> GAME_ROOMS (snd (call_ai_as_dm ev rid s)) r = GAME_ROOMS s r"
  by (simp add: call_ai_as_dm_def Let_def d20_roll split: http_outcome.splits sum.splits)

lemma call_ai_players:
  "map_option players (GAME_ROOMS (snd (call_ai_as_dm ev rid s)) rid) =
     Some (case GAME_ROOMS s rid of None \<Rightarrow> {||} | Some r \<Rightarrow> players r)"
  by (simp add: call_ai_as_dm_def Let_def d20_roll new_adventure_def
      split: http_outcome.splits sum.splits option.splits)

lemma create_rooms:
  "on_create_character sid d s = Inr (s', out) \<Longrightarrow> GAME_ROOMS s' = GAME_ROOMS s"
  by (auto simp: on_create_character_def split: option.splits)

lemma join_empty_room_before:
  "GAME_ROOMS (fst (on_join sid d s)) r = Some v \<Longrightarrow> players v = {||} \<Longrightarrow> GAME_ROOMS s r = Some v"
  by (auto simp: on_join_def Let_def split: option.splits if_splits)

lemma leave_empty_room_before:
  "GAME_ROOMS (fst (on_leave sid s)) r = Some v \<Longrightarrow> players v = {||} \<Longrightarrow> GAME_ROOMS s r = Some v"
  by (auto simp: on_leave_def Let_def split: option.splits if_splits)

lemma call_ai_empty_room_before:
  assumes "GAME_ROOMS (snd (call_ai_as_dm ev rid s)) r = Some v" and "players v = {||}"
  shows "(\<exists>v0. GAME_ROOMS s r = Some v0 \<and> players v0 = {||}) \<or> (r = rid \<and> GAME_ROOMS s rid = None)"
proof (cases "r = rid")
  case True
  have "map_option players (GAME_ROOMS (snd (call_ai_as_dm ev rid s)) rid) =
      Some (case GAME_ROOMS s rid of None \<Rightarrow> {||} | Some x \<Rightarrow> players x)"
    by (rule call_ai_players)
  then have "(case GAME_ROOMS s rid of None \<Rightarrow> {||} | Some x \<Rightarrow> players x) = {||}"
    using assms True by simp
  then show ?thesis using True by (cases "GAME_ROOMS s rid") simp_all
next
  case False
  then have "GAME_ROOMS s r = Some v" using call_ai_other_rooms [of r rid ev s] assms(1) by simp
  then show ?thesis using assms(2) by blast
qed

lemma message_rooms:
  "handle_message sid d ev s = Inr (s', out) \<Longrightarrow>
   GAME_ROOMS s' =
     (case USERS s sid of
        None \<Rightarrow> GAME_ROOMS s
      | Some u \<Rightarrow>
          (case d_message d of
             None \<Rightarrow> GAME_ROOMS s
           | Some m \<Rightarrow>
               if dm_trigger m then GAME_ROOMS (snd (call_ai_as_dm ev (room u) s))
               else GAME_ROOMS s))"
  by (auto simp: handle_message_def Let_def split: option.splits if_splits prod.splits)

section \<open>Rooms and their members\<close>

text \<open>
  C2, as the code has it, for every state and every event. A room that is registered
  with an empty member set after the event was registered with an empty member set
  before it, or the event is a message that reaches the narrator while the sender's
  room id is not registered and the room is that id. So character creation, a join and
  a leave never make a registered room empty (a join registers the room with the joiner
  in it, a leave deletes the room it empties). In the one exceptional case the sender's
  room id, not registered before, is registered with an empty member set after the
  call.
\<close>

theorem C2_nonempty_rooms_preserved:
  "(GAME_ROOMS (step s e) r = Some v \<and> players v = {||} \<longrightarrow>
      (\<exists>v0. GAME_ROOMS s r = Some v0 \<and> players v0 = {||}) \<or> dm_unknown_room s e = Some r) \<and>
   (dm_unknown_room s e = Some r \<longrightarrow>
      GAME_ROOMS s r = None \<and>
      (\<exists>v'. GAME_ROOMS (step s e) r = Some v' \<and> players v' = {||}))"
proof (cases e)
  case (Create_character sid d)
  then show ?thesis
    by (auto split: sum.splits dest!: create_rooms)
next
  case (Join sid d)
  then show ?thesis using join_empty_room_before [of sid d s r v] by auto
next
  case (Leave sid)
  then show ?thesis using leave_empty_room_before [of sid s r v] by auto
next
  case (Send_message sid d ev)
  show ?thesis
  proof (cases "handle_message sid d ev s")
    case (Inl err)
    then have "dm_unknown_room s e = None" using Send_message
      by (auto simp: handle_message_def Let_def split: option.splits if_splits prod.splits)
    then show ?thesis using Send_message Inl by auto
  next
    case (Inr p)
    obtain s' out where p: "p = (s', out)" by (cases p)
    note rooms = message_rooms [OF Inr [unfolded p]]
    have st: "step s e = s'" using Send_message Inr p by simp
    have first: "(\<exists>v0. GAME_ROOMS s r = Some v0 \<and> players v0 = {||}) \<or> dm_unknown_room s e = Some r"
      if a: "GAME_ROOMS s' r = Some v" and b: "players v = {||}"
    proof (cases "USERS s sid")
      case None
      then show ?thesis using rooms a b by auto
    next
      case (Some u)
      obtain m where m: "d_message d = Some m" using Inr Some
        by (auto simp: handle_message_def split: option.splits)
      show ?thesis
      proof (cases "dm_trigger m")
        case True
        then have "GAME_ROOMS (snd (call_ai_as_dm ev (room u) s)) r = Some v"
          using rooms Some m a by simp
        then have "(\<exists>v0. GAME_ROOMS s r = Some v0 \<and> players v0 = {||}) \<or>
            (r = room u \<and> GAME_ROOMS s (room u) = None)"
          using call_ai_empty_room_before b by blast
        then show ?thesis using Send_message Some m True by auto
      next
        case False
        then show ?thesis using rooms Some m a b by auto
      qed
    qed
    have second: "GAME_ROOMS s r = None \<and> (\<exists>v'. GAME_ROOMS s' r = Some v' \<and> players v' = {||})"
      if c: "dm_unknown_room s e = Some r"
    proof -
      obtain u m where um: "USERS s sid = Some u" "d_message d = Some m" "dm_trigger m"
          "GAME_ROOMS s (room u) = None" "r = room u"
        using c Send_message by (auto split: option.splits if_splits)
      have "map_option players (GAME_ROOMS s' (room u)) = Some {||}"
        using rooms um call_ai_players [of ev "room u" s] by simp
      then show ?thesis using um by auto
    qed
    show ?thesis using first second st by blast
  qed
qed

text \<open>
  The theorem where alice has a character, has joined no room and sends an action: the
  narrator call registers \<open>main_adventure\<close>, which was not registered, with no member.
\<close>

theorem C2_witness:
  "GAME_ROOMS (step (run [Create_character ''c1'' alice])
       (Send_message ''c1'' \<lparr>d_message = Some ''I attack''\<rparr> timeout_env)) ''main_adventure'' =
     Some new_adventure \<and>
   players new_adventure = {||} \<and>
   dm_unknown_room (run [Create_character ''c1'' alice])
       (Send_message ''c1'' \<lparr>d_message = Some ''I attack''\<rparr> timeout_env) = Some ''main_adventure'' \<and>
   GAME_ROOMS (run [Create_character ''c1'' alice]) ''main_adventure'' = None"
proof -
  let ?s = "run [Create_character ''c1'' alice]"
  let ?e = "Send_message ''c1'' \<lparr>d_message = Some ''I attack''\<rparr> timeout_env"
  have a: "GAME_ROOMS (step ?s ?e) ''main_adventure'' = Some new_adventure"
    by (simp add: model_defs string_defs alice_def timeout_env_def)
  have b: "players new_adventure = {||}" by (simp add: new_adventure_def)
  have c: "dm_unknown_room ?s ?e = Some ''main_adventure''"
    by (simp add: model_defs string_defs alice_def)
  have d: "GAME_ROOMS ?s ''main_adventure'' = None"
    by (simp add: model_defs alice_def)
  show ?thesis
    using C2_nonempty_rooms_preserved [of ?s ?e "''main_adventure''" new_adventure] a b c d
    by blast
qed

text \<open>
  C2 as the specification states it fails: alice creates a character and, without joining, sends an
  action. The narrator call registers \<open>main_adventure\<close> with no member.
\<close>

theorem C2_counterexample:
  "map_option players
     (GAME_ROOMS
        (run [Create_character ''c1'' alice,
              Send_message ''c1'' \<lparr>d_message = Some ''I attack''\<rparr> timeout_env])
        ''main_adventure'') = Some {||}"
  by (simp add: model_defs string_defs alice_def timeout_env_def)

lemma any_in_iff: "any_in ws s \<longleftrightarrow> (\<exists>w\<in>set ws. \<exists>ps ss. s = ps @ w @ ss)"
  by (simp add: any_in_def list_ex_iff str_in_iff)

text \<open>
  What line 164 computes: one of the nine entries occurs somewhere in the lowercased
  message.
\<close>

lemma dm_trigger_iff:
  "dm_trigger message \<longleftrightarrow>
     (\<exists>w\<in>set (action_prefixes @ action_words). \<exists>ps ss. lower message = ps @ w @ ss)"
  by (auto simp: dm_trigger_def any_in_iff)

text \<open>The room list sent on a leave holds no room with a count of zero.\<close>

lemma leave_room_list_positive: "room_counts_nonempty rooms k = Some n \<Longrightarrow> 0 < n"
  by (auto simp: room_counts_nonempty_def split: option.splits if_splits)

lemma tavern_user:
  "USERS tavern_state ''c1'' =
     Some \<lparr>username = ''alice'',
           character = \<lparr>char_class = ''Fighter'', hp = 10, inventory = []\<rparr>,
           room = ''tavern''\<rparr>"
  by (simp add: tavern_state_def model_defs alice_def)

lemma tavern_room:
  "GAME_ROOMS tavern_state ''tavern'' =
     Some \<lparr>story_state = ''A new party forms. What adventures await?'', players = {|''alice''|}\<rparr>"
  by (simp add: tavern_state_def model_defs alice_def)

lemma leave_users: "USERS (fst (on_leave sid s)) = USERS s"
  by (simp add: on_leave_def Let_def split: option.splits)

lemma leave_room_after:
  "USERS s sid = Some u \<Longrightarrow>
   GAME_ROOMS (fst (on_leave sid s)) (room u) =
     (case GAME_ROOMS s (room u) of
        None \<Rightarrow> None
      | Some r \<Rightarrow> if players r |-| {|username u|} = {||} then None
                  else Some (r\<lparr>players := players r |-| {|username u|}\<rparr>))"
  by (simp add: on_leave_def Let_def split: option.splits)

lemma message_result:
  assumes "USERS s sid = Some u" and "d_message d = Some m"
  shows "\<exists>s' rest. handle_message sid d ev s =
            Inr (s', Emit (Message (username u) m) (To_room (room u) False) # rest) \<and>
          GAME_ROOMS s' =
            (if dm_trigger m then GAME_ROOMS (snd (call_ai_as_dm ev (room u) s)) else GAME_ROOMS s)"
proof (cases "dm_trigger m")
  case True
  obtain reply s1 where c: "call_ai_as_dm ev (room u) s = (reply, s1)"
    by (cases "call_ai_as_dm ev (room u) s")
  show ?thesis
  proof (cases "any_in loot_words (lower reply)")
    case T: True
    then show ?thesis using assms True c by (simp add: handle_message_def Let_def)
  next
    case False
    then show ?thesis using assms True c by (simp add: handle_message_def Let_def)
  qed
next
  case False
  then show ?thesis using assms by (simp add: handle_message_def Let_def)
qed


section \<open>Trigger classification\<close>

text \<open>
  C1. The list is named for prefixes, but line 164 tests each entry with \<open>in\<close>: an action
  prefix anywhere in the lowercased message triggers the narrator. \<open>hi there\<close> contains
  \<open>i \<close> and triggers, although it starts with no prefix, holds no keyword and no question
  mark. The three examples of the specification come out as it says.
\<close>

theorem C1_prefix_matched_anywhere:
  "dm_trigger ''hi there'' \<and> \<not> classify_spec ''hi there'' \<and>
   dm_trigger ''I attack the goblin'' \<and> \<not> dm_trigger ''hello everyone'' \<and>
   dm_trigger ''what happens?''"
  by (simp add: dm_trigger_def classify_spec_def action_prefixes_def action_words_def string_defs)

section \<open>Narrator failures\<close>

text \<open>
  C3. A failed narrator call returns a diagnostic text (\<open>DM Exception: \<close> with the
  exception's text, or \<open>DM Error: \<close> with the status) and appends nothing: when the room
  is registered the whole state is as before, and when it is not, the only change is the
  room's registration with the opening line as its story.
\<close>

theorem C3_failed_call_keeps_story:
  assumes "call_fails (post_result ev)"
  shows "fst (call_ai_as_dm ev rid s) =
           (case post_result ev of
              Raised m \<Rightarrow> ''DM Exception: '' @ m
            | Responded status body \<Rightarrow>
                if status = 200 then ''DM Exception: '' @ projl body
                else ''DM Error: '' @ str_int status @ '' - Check API key/quotas.'') \<and>
         snd (call_ai_as_dm ev rid s) =
           (case GAME_ROOMS s rid of
              Some r \<Rightarrow> s
            | None \<Rightarrow> s\<lparr>GAME_ROOMS := (GAME_ROOMS s)(rid \<mapsto> new_adventure)\<rparr>)"
  using assms
  by (auto simp: call_ai_as_dm_def Let_def fun_upd_idem
      split: http_outcome.splits sum.splits option.splits)

theorem C3_witness:
  "call_fails (post_result timeout_env) \<and>
   fst (call_ai_as_dm timeout_env ''tavern'' tavern_state) = ''DM Exception: timed out'' \<and>
   snd (call_ai_as_dm timeout_env ''tavern'' tavern_state) = tavern_state \<and>
   map_option story_state (GAME_ROOMS tavern_state ''tavern'') =
     Some ''A new party forms. What adventures await?''"
proof -
  have h: "call_fails (post_result timeout_env)" by (simp add: timeout_env_def)
  have p: "post_result timeout_env = Raised ''timed out''" by (simp add: timeout_env_def)
  show ?thesis
    using C3_failed_call_keeps_story [OF h, of "''tavern''" tavern_state] h tavern_room p
    by simp
qed

section \<open>Character creation\<close>

text \<open>
  C4, as the code has it. A \<open>create_character\<close> event on a connection that already has
  a session does not fail: it replaces the session. The name, class and hit points are
  those of the new request, the inventory is empty again and the room is the default
  room; the sender gets a \<open>character_update\<close> with the empty inventory.
\<close>

theorem C4_second_creation_overwrites:
  assumes "USERS s sid = Some old"
    and "d_username d = Some name" and "d_charClass d = Some cls" and "d_maxHP d = Some max_hp"
  shows "on_create_character sid d s =
           Inr (s\<lparr>USERS := (USERS s)(sid \<mapsto>
                  \<lparr>username = name,
                   character = \<lparr>char_class = cls, hp = max_hp, inventory = []\<rparr>,
                   room = DEFAULT_ROOM\<rparr>)\<rparr>,
                [Emit (Character_update []) To_sender])"
  using assms by (simp add: on_create_character_def)

theorem C4_witness:
  "USERS tavern_state ''c1'' =
     Some \<lparr>username = ''alice'',
           character = \<lparr>char_class = ''Fighter'', hp = 10, inventory = []\<rparr>,
           room = ''tavern''\<rparr> \<and>
   map_option (\<lambda>(s', out). (USERS s' ''c1'', out))
     (case on_create_character ''c1'' bob tavern_state of Inl e \<Rightarrow> None | Inr x \<Rightarrow> Some x) =
     Some (Some \<lparr>username = ''bob'',
                 character = \<lparr>char_class = ''Wizard'', hp = 6, inventory = []\<rparr>,
                 room = ''main_adventure''\<rparr>,
           [Emit (Character_update []) To_sender])"
  using C4_second_creation_overwrites [OF tavern_user, of bob "''bob''" "''Wizard''" 6] tavern_user
  by (simp add: bob_def DEFAULT_ROOM_def)

text \<open>
  C4 as the specification states it fails: after alice's character, a second creation on the same
  connection returns normally and the session is bob's.
\<close>

theorem C4_counterexample:
  "map_option username (USERS (run [Create_character ''c1'' alice]) ''c1'') = Some ''alice'' \<and>
   map_option username
     (USERS (run [Create_character ''c1'' alice, Create_character ''c1'' bob]) ''c1'') = Some ''bob'' \<and>
   isl (on_create_character ''c1'' bob (run [Create_character ''c1'' alice])) = False"
  by (simp add: model_defs alice_def bob_def)

section \<open>Loot\<close>

text \<open>
  C5. For a message that reaches the narrator, the sender gets an item exactly when the
  lowercased text returned by the narrator call contains \<open>find\<close>, \<open>loot\<close> or \<open>treasure\<close>.
  Then one item of the loot table is appended to the sender's inventory, whose length
  grows by one, and the one \<open>character_update\<close> is addressed to the sender's own
  connection; otherwise the session is unchanged and no \<open>character_update\<close> is sent. No
  other session changes.
\<close>

theorem C5_loot_grant:
  assumes "USERS s sid = Some u" and "d_message d = Some m" and "dm_trigger m"
  shows "\<exists>s' out. handle_message sid d ev s = Inr (s', out) \<and>
           (\<forall>k. k \<noteq> sid \<longrightarrow> USERS s' k = USERS s k) \<and>
           (let reply = fst (call_ai_as_dm ev (room u) s);
                items = inventory (character u)
            in if \<exists>w\<in>set [''find'', ''loot'', ''treasure'']. \<exists>ps ss. lower reply = ps @ w @ ss
               then \<exists>item\<in>set [''Potion of Healing'', ''Rusty Sword'', ''Gold Coin'', ''Magic Scroll''].
                      USERS s' sid =
                        Some (u\<lparr>character := (character u)\<lparr>inventory := items @ [item]\<rparr>\<rparr>) \<and>
                      length (items @ [item]) = length items + 1 \<and>
                      character_updates out = [(items @ [item], To_room sid True)]
               else USERS s' sid = Some u \<and> character_updates out = [])"
proof -
  obtain reply s1 where c: "call_ai_as_dm ev (room u) s = (reply, s1)"
    by (cases "call_ai_as_dm ev (room u) s")
  have us: "USERS s1 = USERS s" using call_ai_users [of ev "room u" s] c by simp
  have g: "any_in loot_words (lower reply) \<longleftrightarrow>
      (\<exists>w\<in>set [''find'', ''loot'', ''treasure'']. \<exists>ps ss. lower reply = ps @ w @ ss)"
    by (simp only: any_in_iff loot_words_def)
  have pick: "random_choice (choice_src ev) loot_table \<in>
      set [''Potion of Healing'', ''Rusty Sword'', ''Gold Coin'', ''Magic Scroll'']"
  proof -
    have "choice_src ev mod 4 < 4" by simp
    then have "loot_table ! (choice_src ev mod 4) \<in> set loot_table"
      by (simp only: nth_mem loot_table_def length_Cons list.size)
    then show ?thesis by (simp add: random_choice_def loot_table_def)
  qed
  show ?thesis
  proof (cases "any_in loot_words (lower reply)")
    case True
    then show ?thesis using assms c us g pick
      by (auto simp add: handle_message_def Let_def)
  next
    case False
    then show ?thesis using assms c us g
      by (simp add: handle_message_def Let_def)
  qed
qed

theorem C5_witness:
  "USERS tavern_state ''c1'' \<noteq> None \<and> dm_trigger ''I search the room'' \<and>
   (case handle_message ''c1'' \<lparr>d_message = Some ''I search the room''\<rparr> find_env tavern_state of
      Inl e \<Rightarrow> False
    | Inr (s', out) \<Rightarrow>
        map_option (inventory \<circ> character) (USERS s' ''c1'') = Some [''Gold Coin''] \<and>
        character_updates out = [([''Gold Coin''], To_room ''c1'' True)])"
proof -
  have t: "dm_trigger ''I search the room''"
    by (simp add: dm_trigger_def action_prefixes_def action_words_def string_defs)
  have h: "USERS tavern_state ''c1'' \<noteq> None" by (simp add: tavern_user)
  have r: "case handle_message ''c1'' \<lparr>d_message = Some ''I search the room''\<rparr> find_env tavern_state of
      Inl e \<Rightarrow> False
    | Inr (s', out) \<Rightarrow>
        map_option (inventory \<circ> character) (USERS s' ''c1'') = Some [''Gold Coin''] \<and>
        character_updates out = [([''Gold Coin''], To_room ''c1'' True)]"
    by (simp add: tavern_user tavern_room handle_message_def call_ai_as_dm_def dm_trigger_def
      action_prefixes_def action_words_def loot_words_def loot_table_def dice_words_def
      random_choice_def find_env_def string_defs Let_def)
  show ?thesis
    using C5_loot_grant [OF tavern_user _ t, of "\<lparr>d_message = Some ''I search the room''\<rparr>" find_env]
      t h r
    by blast
qed

section \<open>Joining a room\<close>

text \<open>
  C6. A join by a connection with a session ends with a message addressed to that
  connection only (\<open>room=request.sid\<close>) whose text is \<open>Current tale: \<close>, the tail of the
  room's story and \<open>...\<close>. The story is the room's story at the join (the opening line
  when the join creates the room). The tail is a suffix of the story of length
  \<open>min 500 (length story)\<close>: never more than 500 characters, and the whole story when the
  story has at most 500.
\<close>

theorem C6_join_sends_story_tail:
  assumes "USERS s sid = Some u"
  shows "let rid = join_room_id d;
             story = (case GAME_ROOMS s rid of
                        None \<Rightarrow> ''A new party forms. What adventures await?''
                      | Some r \<Rightarrow> story_state r);
             tail = last_chars 500 story
         in map_option story_state (GAME_ROOMS (fst (on_join sid d s)) rid) = Some story \<and>
            last (snd (on_join sid d s)) =
              Emit (Message ''DM (AI)'' (''Current tale: '' @ tail @ ''...'')) (To_room sid True) \<and>
            (\<exists>pre. story = pre @ tail) \<and>
            length tail = min 500 (length story) \<and>
            length tail \<le> 500 \<and>
            (length story \<le> 500 \<longrightarrow> tail = story)"
proof -
  have suffix: "\<exists>pre. x = pre @ last_chars 500 x" for x :: string
  proof
    show "x = take (length x - 500) x @ last_chars 500 x" by (simp add: last_chars_def)
  qed
  have len: "length (last_chars 500 x) = min 500 (length x)" for x :: string
    by (simp add: last_chars_def)
  have short: "length x \<le> 500 \<Longrightarrow> last_chars 500 x = x" for x :: string
    by (simp add: last_chars_def)
  show ?thesis
  proof (cases "GAME_ROOMS s (join_room_id d)")
    case None
    then show ?thesis using assms suffix len short
      by (simp add: on_join_def Let_def new_party_def)
  next
    case (Some r)
    then show ?thesis using assms suffix len short
      by (simp add: on_join_def Let_def)
  qed
qed

theorem C6_witness:
  "USERS tavern_state ''c1'' \<noteq> None \<and>
   last (snd (on_join ''c1'' \<lparr>d_room = Some ''tavern''\<rparr> tavern_state)) =
     Emit (Message ''DM (AI)'' ''Current tale: A new party forms. What adventures await?...'')
       (To_room ''c1'' True)"
proof -
  have h: "USERS tavern_state ''c1'' \<noteq> None" by (simp add: tavern_user)
  have r: "last (snd (on_join ''c1'' \<lparr>d_room = Some ''tavern''\<rparr> tavern_state)) =
     Emit (Message ''DM (AI)'' ''Current tale: A new party forms. What adventures await?...'')
       (To_room ''c1'' True)"
    by (simp add: on_join_def tavern_user tavern_room join_room_id_def Let_def last_chars_def)
  show ?thesis
    using C6_join_sends_story_tail [OF tavern_user, of "\<lparr>d_room = Some ''tavern''\<rparr>"] h r
    by blast
qed

section \<open>Room lists\<close>

text \<open>
  C7. The room lists of \<open>get_rooms\<close> and of the \<open>room_update\<close> sent on a join are built
  without the filter \<open>if v.get('players')\<close> that the \<open>room_update\<close> sent on a leave has.
  After alice creates a character and sends an action without joining, \<open>main_adventure\<close>
  is registered with no member: \<open>get_rooms\<close> lists it with 0 players, and so does the
  \<open>room_update\<close> of bob's join of the tavern. The \<open>room_update\<close> of bob's leave lists
  neither that room nor the tavern he emptied.
\<close>

theorem C7_empty_room_listed:
  "get_rooms (run [Create_character ''c1'' alice,
        Send_message ''c1'' \<lparr>d_message = Some ''I attack''\<rparr> timeout_env]) ''main_adventure'' = Some 0 \<and>
   (case snd (on_join ''c2'' \<lparr>d_room = Some ''tavern''\<rparr>
        (run [Create_character ''c1'' alice,
              Send_message ''c1'' \<lparr>d_message = Some ''I attack''\<rparr> timeout_env,
              Create_character ''c2'' bob])) ! 2 of
      Emit (Room_update rooms) To_all \<Rightarrow> rooms ''main_adventure'' = Some 0 \<and> rooms ''tavern'' = Some 1
    | _ \<Rightarrow> False) \<and>
   (case snd (on_leave ''c2''
        (run [Create_character ''c1'' alice,
              Send_message ''c1'' \<lparr>d_message = Some ''I attack''\<rparr> timeout_env,
              Create_character ''c2'' bob, Join ''c2'' \<lparr>d_room = Some ''tavern''\<rparr>])) ! 2 of
      Emit (Room_update rooms) To_all \<Rightarrow> rooms ''main_adventure'' = None \<and> rooms ''tavern'' = None
    | _ \<Rightarrow> False)"
  by (simp add: model_defs string_defs alice_def bob_def timeout_env_def fcard_finsert_if)

section \<open>Dice annotation\<close>

text \<open>
  C8. On a reply with status 200 and a readable body, the reply text is the stripped
  content. The text returned is that text followed by \<open> (DM rolls: n on d20)\<close> exactly
  when the lowercased text contains \<open>roll\<close>, \<open>attack\<close> or \<open>check\<close>, where \<open>n\<close> is the result
  of \<open>generate_dice_roll\<close> with its defaults (one d20, no modifier), between 1 and 20;
  otherwise it is the reply text itself. The text returned is what is appended to the
  room's story, after a newline, the time and a colon.
\<close>

theorem C8_dice_annotation:
  assumes "post_result ev = Responded 200 (Inr content)"
  shows "let reply = strip content;
             roll = 1 + int (randint_src ev 0) mod 20;
             text = fst (call_ai_as_dm ev rid s);
             old = (case GAME_ROOMS s rid of None \<Rightarrow> new_adventure | Some r \<Rightarrow> r)
         in generate_dice_roll (randint_src ev) ''d20'' 1 0 = Inr roll \<and>
            1 \<le> roll \<and> roll \<le> 20 \<and>
            text = (if \<exists>w\<in>set [''roll'', ''attack'', ''check'']. \<exists>ps ss. lower reply = ps @ w @ ss
                    then reply @ '' (DM rolls: '' @ str_int roll @ '' on d20)''
                    else reply) \<and>
            GAME_ROOMS (snd (call_ai_as_dm ev rid s)) rid =
              Some (old\<lparr>story_state := story_state old @ [CHR 0x0A] @ now_hm ev @ '': '' @ text\<rparr>)"
proof -
  have g: "any_in dice_words (lower (strip content)) \<longleftrightarrow>
      (\<exists>w\<in>set [''roll'', ''attack'', ''check'']. \<exists>ps ss. lower (strip content) = ps @ w @ ss)"
    by (simp only: any_in_iff dice_words_def)
  have b: "1 \<le> 1 + int (randint_src ev 0) mod 20 \<and> 1 + int (randint_src ev 0) mod 20 \<le> 20"
    by simp
  show ?thesis
  proof (cases "any_in dice_words (lower (strip content))")
    case True
    then show ?thesis using assms g b
      by (simp add: call_ai_as_dm_def Let_def d20_roll)
  next
    case False
    then show ?thesis using assms g b
      by (simp add: call_ai_as_dm_def Let_def d20_roll)
  qed
qed

theorem C8_witness:
  "post_result attack_env = Responded 200 (Inr '' The goblin attacks! '') \<and>
   call_ai_as_dm attack_env ''tavern'' tavern_state =
     (''The goblin attacks! (DM rolls: 7 on d20)'',
      tavern_state\<lparr>GAME_ROOMS := (GAME_ROOMS tavern_state)(''tavern'' \<mapsto>
        \<lparr>story_state = ''A new party forms. What adventures await?'' @ [CHR 0x0A] @
           ''12:05: The goblin attacks! (DM rolls: 7 on d20)'',
         players = {|''alice''|}\<rparr>)\<rparr>)"
proof -
  have h: "post_result attack_env = Responded 200 (Inr '' The goblin attacks! '')"
    by (simp add: attack_env_def)
  have r: "call_ai_as_dm attack_env ''tavern'' tavern_state =
     (''The goblin attacks! (DM rolls: 7 on d20)'',
      tavern_state\<lparr>GAME_ROOMS := (GAME_ROOMS tavern_state)(''tavern'' \<mapsto>
        \<lparr>story_state = ''A new party forms. What adventures await?'' @ [CHR 0x0A] @
           ''12:05: The goblin attacks! (DM rolls: 7 on d20)'',
         players = {|''alice''|}\<rparr>)\<rparr>)"
    by (simp add: call_ai_as_dm_def tavern_room attack_env_def dice_words_def d20_roll string_defs Let_def)
  show ?thesis using C8_dice_annotation [OF h, of "''tavern''" tavern_state] h r by blast
qed

section \<open>Switching rooms and leaving\<close>



text \<open>
  C10. A leave keeps \<open>USERS\<close> as it is, so the session's room is still the room left; in
  the registry that room loses the name and is deleted when no member remains. A message
  of the same session afterwards is echoed to the room left. When it triggers the
  narrator, the room is registered after the call with the members that remained: with
  an empty member set when the leave had deleted it.
\<close>

theorem C10_leave_keeps_room_field:
  assumes "USERS s sid = Some u" and "d_message d = Some m"
  shows "let s1 = fst (on_leave sid s);
             rid = room u;
             remaining = (case GAME_ROOMS s rid of None \<Rightarrow> {||} | Some r \<Rightarrow> players r |-| {|username u|})
         in USERS s1 = USERS s \<and>
            GAME_ROOMS s1 rid =
              (case GAME_ROOMS s rid of
                 None \<Rightarrow> None
               | Some r \<Rightarrow> if remaining = {||} then None else Some (r\<lparr>players := remaining\<rparr>)) \<and>
            (\<exists>s2 out. handle_message sid d ev s1 = Inr (s2, out) \<and>
               hd out = Emit (Message (username u) m) (To_room rid False) \<and>
               (if dm_trigger m
                then map_option players (GAME_ROOMS s2 rid) = Some remaining
                else GAME_ROOMS s2 = GAME_ROOMS s1) \<and>
               (dm_trigger m \<and> GAME_ROOMS s1 rid = None \<longrightarrow>
                  map_option players (GAME_ROOMS s2 rid) = Some {||}))"
proof -
  define s1 where "s1 = fst (on_leave sid s)"
  define remaining where
    "remaining = (case GAME_ROOMS s (room u) of None \<Rightarrow> {||} | Some r \<Rightarrow> players r |-| {|username u|})"
  have us: "USERS s1 = USERS s" by (simp add: s1_def leave_users)
  have rooms: "GAME_ROOMS s1 (room u) =
      (case GAME_ROOMS s (room u) of
         None \<Rightarrow> None
       | Some r \<Rightarrow> if remaining = {||} then None else Some (r\<lparr>players := remaining\<rparr>))"
    using leave_room_after [OF assms(1)] by (simp add: s1_def remaining_def split: option.splits)
  have u1: "USERS s1 sid = Some u" using us assms(1) by simp
  obtain s2 rest where m: "handle_message sid d ev s1 =
        Inr (s2, Emit (Message (username u) m) (To_room (room u) False) # rest)"
      and g: "GAME_ROOMS s2 =
        (if dm_trigger m then GAME_ROOMS (snd (call_ai_as_dm ev (room u) s1)) else GAME_ROOMS s1)"
    using message_result [OF u1 assms(2), of ev] by blast
  have p: "dm_trigger m \<Longrightarrow> map_option players (GAME_ROOMS s2 (room u)) = Some remaining"
  proof -
    assume "dm_trigger m"
    then have "map_option players (GAME_ROOMS s2 (room u)) =
        Some (case GAME_ROOMS s1 (room u) of None \<Rightarrow> {||} | Some r \<Rightarrow> players r)"
      using g call_ai_players [of ev "room u" s1] by simp
    also have "(case GAME_ROOMS s1 (room u) of None \<Rightarrow> {||} | Some r \<Rightarrow> players r) = remaining"
    proof (cases "GAME_ROOMS s (room u)")
      case None
      then show ?thesis using rooms by (simp add: remaining_def)
    next
      case (Some r)
      then show ?thesis using rooms by (cases "remaining = {||}") simp_all
    qed
    finally show ?thesis .
  qed
  have e: "GAME_ROOMS s1 (room u) = None \<Longrightarrow> remaining = {||}"
  proof (cases "GAME_ROOMS s (room u)")
    case None
    then show ?thesis by (simp add: remaining_def)
  next
    case (Some r)
    assume "GAME_ROOMS s1 (room u) = None"
    then show ?thesis using rooms Some by (cases "remaining = {||}") simp_all
  qed
  have last: "\<exists>s2 out. handle_message sid d ev s1 = Inr (s2, out) \<and>
               hd out = Emit (Message (username u) m) (To_room (room u) False) \<and>
               (if dm_trigger m
                then map_option players (GAME_ROOMS s2 (room u)) = Some remaining
                else GAME_ROOMS s2 = GAME_ROOMS s1) \<and>
               (dm_trigger m \<and> GAME_ROOMS s1 (room u) = None \<longrightarrow>
                  map_option players (GAME_ROOMS s2 (room u)) = Some {||})"
  proof (intro exI conjI)
    show "handle_message sid d ev s1 =
        Inr (s2, Emit (Message (username u) m) (To_room (room u) False) # rest)" by (rule m)
    show "hd (Emit (Message (username u) m) (To_room (room u) False) # rest) =
        Emit (Message (username u) m) (To_room (room u) False)" by simp
    show "if dm_trigger m
                then map_option players (GAME_ROOMS s2 (room u)) = Some remaining
                else GAME_ROOMS s2 = GAME_ROOMS s1"
      using p g by simp
    show "dm_trigger m \<and> GAME_ROOMS s1 (room u) = None \<longrightarrow>
        map_option players (GAME_ROOMS s2 (room u)) = Some {||}"
      using p e by auto
  qed
  show ?thesis
    unfolding Let_def s1_def [symmetric] remaining_def [symmetric]
    using us rooms last by blast
qed

theorem C10_witness:
  "USERS tavern_state ''c1'' \<noteq> None \<and>
   GAME_ROOMS (fst (on_leave ''c1'' tavern_state)) ''tavern'' = None \<and>
   map_option room (USERS (fst (on_leave ''c1'' tavern_state)) ''c1'') = Some ''tavern'' \<and>
   (case handle_message ''c1'' \<lparr>d_message = Some ''I attack''\<rparr> timeout_env
           (fst (on_leave ''c1'' tavern_state)) of
      Inl e \<Rightarrow> False
    | Inr (s2, out) \<Rightarrow>
        hd out = Emit (Message ''alice'' ''I attack'') (To_room ''tavern'' False) \<and>
        map_option players (GAME_ROOMS s2 ''tavern'') = Some {||})"
proof -
  have h: "USERS tavern_state ''c1'' \<noteq> None" by (simp add: tavern_user)
  have a: "GAME_ROOMS (fst (on_leave ''c1'' tavern_state)) ''tavern'' = None"
    by (simp add: on_leave_def tavern_user tavern_room Let_def)
  have b: "map_option room (USERS (fst (on_leave ''c1'' tavern_state)) ''c1'') = Some ''tavern''"
    by (simp add: on_leave_def tavern_user tavern_room Let_def)
  have c: "case handle_message ''c1'' \<lparr>d_message = Some ''I attack''\<rparr> timeout_env
           (fst (on_leave ''c1'' tavern_state)) of
      Inl e \<Rightarrow> False
    | Inr (s2, out) \<Rightarrow>
        hd out = Emit (Message ''alice'' ''I attack'') (To_room ''tavern'' False) \<and>
        map_option players (GAME_ROOMS s2 ''tavern'') = Some {||}"
    by (simp add: on_leave_def tavern_user tavern_room handle_message_def call_ai_as_dm_def
        dm_trigger_def action_prefixes_def action_words_def loot_words_def new_adventure_def
        timeout_env_def string_defs Let_def)
  show ?thesis
    using C10_leave_keeps_room_field [OF tavern_user, of "\<lparr>d_message = Some ''I attack''\<rparr>"
        "''I attack''" timeout_env] h a b c
    by blast
qed

end
